theory Spec2Isabelle
  imports Complex_Main "HOL-Library.Word"
begin

unbundle bit_operations_syntax

section \<open>Baseball-Tracker: the labelling tool, the trainer and the exporter\<close>

text \<open>
  The repository holds three Python scripts. \<^verbatim>\<open>main.py\<close> is the interactive
  labelling tool, \<^verbatim>\<open>training.py\<close> starts one training run and
  \<^verbatim>\<open>export.py\<close> converts one checkpoint. The definitions below follow the
  scripts line by line; the line numbers in the comments are those of the scripts.

  Numbers. Pixel coordinates and image dimensions are Python integers and are
  modelled by \<^typ>\<open>int\<close>. Python's \<^verbatim>\<open>/\<close> yields a binary64 float; the
  model computes the exact quotient in \<^typ>\<open>rat\<close>, so the label values are the
  exact ones and the rounding of binary64 is not part of the tool's model. The round
  trip of a record, whose statement is about that rounding, is also proved with every
  operation rounded (see the subsection on rounding). Division by zero raises, as in
  Python.
\<close>

subsection \<open>Errors\<close>

datatype error =
    ZeroDivisionError    \<comment> \<open>\<^verbatim>\<open>/ w\<close> or \<^verbatim>\<open>/ h\<close> with a zero dimension\<close>
  | AttributeError       \<comment> \<open>\<^verbatim>\<open>img.shape\<close> when \<^verbatim>\<open>cv2.imread\<close> returned \<^verbatim>\<open>None\<close>\<close>
  | FileNotFoundError    \<comment> \<open>\<^verbatim>\<open>os.listdir\<close> of a missing image folder\<close>
  | CvError              \<comment> \<open>\<^verbatim>\<open>cv2.imshow\<close> of \<^verbatim>\<open>None\<close>\<close>

subsection \<open>Formatting numbers\<close>

definition digit_char :: "nat \<Rightarrow> char" where
  "digit_char d = char_of (48 + d)"

text \<open>The decimal digits of a natural number, most significant first.\<close>

fun show_nat :: "nat \<Rightarrow> string" where
  "show_nat n = (if n < 10 then [digit_char n]
                 else show_nat (n div 10) @ [digit_char (n mod 10)])"

declare show_nat.simps [simp del]

definition show_int :: "int \<Rightarrow> string" where
  "show_int i = (if i < 0 then CHR ''-'' # show_nat (nat (- i)) else show_nat (nat i))"

text \<open>Rounding to the nearest integer, ties to the even neighbour.\<close>

definition round_half_even :: "rat \<Rightarrow> int" where
  "round_half_even x =
     (let f = \<lfloor>x\<rfloor>; d = x - of_int f
      in if d < 1 / 2 then f
         else if 1 / 2 < d then f + 1
         else if even f then f else f + 1)"

text \<open>The six digits after the decimal point, zero-padded.\<close>

definition frac6 :: "nat \<Rightarrow> string" where
  "frac6 n = map (\<lambda>k. digit_char (n div 10 ^ k mod 10)) [5, 4, 3, 2, 1, 0]"

text \<open>
  The format specification \<^verbatim>\<open>:.6f\<close>: sign, integer part, a point and six
  decimals. Python rounds the exact value of the float correctly, ties to even; here the
  value formatted is the exact quotient.
\<close>

definition fmt6 :: "rat \<Rightarrow> string" where
  "fmt6 x =
     (let n = nat (round_half_even (\<bar>x\<bar> * 1000000))
      in (if x < 0 then ''-'' else '''')
         @ show_nat (n div 1000000) @ ''.'' @ frac6 (n mod 1000000))"

subsection \<open>Boxes and label lines (main.py, lines 7 and 71-76)\<close>

type_synonym box = "int \<times> int \<times> int \<times> int"

definition class_id :: int where
  "class_id = 0"

text \<open>
  Python's true division: \<^verbatim>\<open>a / b\<close> raises \<^verbatim>\<open>ZeroDivisionError\<close> when
  \<^verbatim>\<open>b\<close> is zero.
\<close>

definition truediv :: "rat \<Rightarrow> rat \<Rightarrow> error + rat" where
  "truediv a b = (if b = 0 then Inl ZeroDivisionError else Inr (a / b))"

text \<open>
  Lines 72-75, on coordinates of any numeric kind: the four assignments in the order
  of the source, the first failing division ending the computation.
\<close>

definition normalize :: "rat \<Rightarrow> rat \<Rightarrow> rat \<times> rat \<times> rat \<times> rat \<Rightarrow> error + rat \<times> rat \<times> rat \<times> rat" where
  "normalize w h b =
     (case b of (x1, y1, x2, y2) \<Rightarrow>
        (case truediv ((x1 + x2) / 2) w of Inl e \<Rightarrow> Inl e | Inr x_center \<Rightarrow>
        (case truediv ((y1 + y2) / 2) h of Inl e \<Rightarrow> Inl e | Inr y_center \<Rightarrow>
        (case truediv \<bar>x2 - x1\<bar> w of Inl e \<Rightarrow> Inl e | Inr width \<Rightarrow>
        (case truediv \<bar>y2 - y1\<bar> h of Inl e \<Rightarrow> Inl e | Inr height \<Rightarrow>
           Inr (x_center, y_center, width, height))))))"

text \<open>The same lines on a committed box, whose corners are integers.\<close>

definition label_fields :: "int \<Rightarrow> int \<Rightarrow> box \<Rightarrow> error + rat \<times> rat \<times> rat \<times> rat" where
  "label_fields w h b =
     (case b of (x1, y1, x2, y2) \<Rightarrow>
        normalize (of_int w) (of_int h) (of_int x1, of_int y1, of_int x2, of_int y2))"

text \<open>Line 76: the text handed to \<^verbatim>\<open>f.write\<close>.\<close>

definition format_line :: "rat \<times> rat \<times> rat \<times> rat \<Rightarrow> string" where
  "format_line v =
     (case v of (x_center, y_center, width, height) \<Rightarrow>
        show_int class_id @ '' '' @ fmt6 x_center @ '' '' @ fmt6 y_center
        @ '' '' @ fmt6 width @ '' '' @ fmt6 height @ [CHR 0x0A])"

definition label_line :: "int \<Rightarrow> int \<Rightarrow> box \<Rightarrow> error + string" where
  "label_line w h b =
     (case label_fields w h b of Inl e \<Rightarrow> Inl e | Inr v \<Rightarrow> Inr (format_line v))"

text \<open>
  Lines 71-76: the loop over \<^verbatim>\<open>current_boxes\<close> inside the \<^verbatim>\<open>with\<close>
  block. The result is the text written to the file and the exception that ended the
  loop, if any; what was written before an exception stays in the file.
\<close>

fun write_boxes :: "int \<Rightarrow> int \<Rightarrow> box list \<Rightarrow> string \<times> error option" where
  "write_boxes w h [] = ('''', None)"
| "write_boxes w h (b # bs) =
     (case label_line w h b of
        Inl e \<Rightarrow> ('''', Some e)
      | Inr l \<Rightarrow> (case write_boxes w h bs of (t, r) \<Rightarrow> (l @ t, r)))"

subsection \<open>Paths and file names (main.py, lines 5-6, 38-45 and 69)\<close>

definition dataset_folder :: string where
  "dataset_folder = ''/labelling/images.cv/data/''"

definition splits :: "string list" where
  "splits = [''train'', ''val'', ''test'']"

text \<open>\<^verbatim>\<open>os.path.join\<close> of two components, on POSIX paths.\<close>

definition path_join :: "string \<Rightarrow> string \<Rightarrow> string" where
  "path_join a b =
     (if (case b of [] \<Rightarrow> False | c # _ \<Rightarrow> c = CHR ''/'') then b
      else if a = [] \<or> last a = CHR ''/'' then a @ b
      else a @ ''/'' @ b)"

text \<open>\<^verbatim>\<open>str.lower\<close>, on the ASCII letters.\<close>

definition lower_char :: "char \<Rightarrow> char" where
  "lower_char c =
     (if (65::nat) \<le> of_char c \<and> (of_char c :: nat) \<le> 90
      then char_of ((of_char c :: nat) + 32) else c)"

definition endswith :: "string \<Rightarrow> string \<Rightarrow> bool" where
  "endswith s suffix =
     (length suffix \<le> length s \<and> drop (length s - length suffix) s = suffix)"

text \<open>The filter of line 42.\<close>

definition is_image_name :: "string \<Rightarrow> bool" where
  "is_image_name f =
     (let l = map lower_char f
      in endswith l ''.png'' \<or> endswith l ''.jpg'' \<or> endswith l ''.jpeg'')"

text \<open>
  \<^verbatim>\<open>os.path.splitext(p)[0]\<close>: the path without its extension. The extension
  starts at the last dot of the last component; dots that lead the component do not
  start an extension.
\<close>

definition splitext_root :: "string \<Rightarrow> string" where
  "splitext_root p =
     (let dir = rev (dropWhile (\<lambda>c. c \<noteq> CHR ''/'') (rev p));
          base = rev (takeWhile (\<lambda>c. c \<noteq> CHR ''/'') (rev p));
          lead = takeWhile (\<lambda>c. c = CHR ''.'') base;
          rest = dropWhile (\<lambda>c. c = CHR ''.'') base
      in if CHR ''.'' \<in> set rest
         then dir @ lead @ rev (tl (dropWhile (\<lambda>c. c \<noteq> CHR ''.'') (rev rest)))
         else p)"

subsection \<open>Images, windows and the state of the tool\<close>

text \<open>
  What \<^verbatim>\<open>cv2.imread\<close> decodes: the dimensions and the pixel data. A picture
  in memory is such an array together with the rectangles that \<^verbatim>\<open>cv2.rectangle\<close>
  has drawn onto it since it was read (corner, corner, colour, thickness).
\<close>

record raster =
  rows :: nat
  cols :: nat
  pixels :: "nat list"

type_synonym rect = "(int \<times> int) \<times> (int \<times> int) \<times> (nat \<times> nat \<times> nat) \<times> nat"

record picture =
  source :: raster
  overlay :: "rect list"

definition rectangle :: "int \<times> int \<Rightarrow> int \<times> int \<Rightarrow> nat \<times> nat \<times> nat \<Rightarrow> nat \<Rightarrow> picture \<Rightarrow> picture" where
  "rectangle pt1 pt2 colour thickness p = p\<lparr>overlay := overlay p @ [(pt1, pt2, colour, thickness)]\<rparr>"

text \<open>
  The part of the world the tool only reads: the directory listings and the image
  files. \<^verbatim>\<open>os.listdir\<close> raises on a missing directory (\<open>None\<close> here);
  \<^verbatim>\<open>cv2.imread\<close> returns \<^verbatim>\<open>None\<close> for a file it cannot decode.
\<close>

record world =
  listdir :: "string \<Rightarrow> string list option"
  imread :: "string \<Rightarrow> raster option"

definition read_picture :: "world \<Rightarrow> string \<Rightarrow> picture option" where
  "read_picture env path = map_option (\<lambda>r. \<lparr>source = r, overlay = []\<rparr>) (imread env path)"

text \<open>
  Where the script stands: before line 37, in the drawing loop at
  \<^verbatim>\<open>waitKey(1)\<close> (line 57), in the preview loop at \<^verbatim>\<open>waitKey(0)\<close>
  (line 67), past line 92, or ended by an exception.
\<close>

datatype mode = Starting | Drawing | Preview | Finished | Crashed error

text \<open>
  The state: the globals of lines 10-12 and \<^verbatim>\<open>img\<close>, the variables of the
  loops, the windows on screen, and the part of the file system the tool changes
  (directories created, text files, and the paths opened for writing, oldest first).
  Console output is not modelled.
\<close>

record tool =
  drawing :: bool
  ix :: int
  iy :: int
  current_boxes :: "box list"
  img :: "picture option"
  splits_left :: "string list"
  img_folder :: string
  labels_folder :: string
  img_files :: "string list"
  img_name :: string
  img_path :: string
  img_h :: int
  img_w :: int
  windows :: "string \<Rightarrow> picture option"
  dirs :: "string set"
  files :: "string \<Rightarrow> string option"
  writes :: "string list"
  mode :: mode

definition ord :: "char \<Rightarrow> int" where
  "ord c = of_char c"

text \<open>\<^verbatim>\<open>cv2.imshow\<close>; showing \<^verbatim>\<open>None\<close> raises.\<close>

definition imshow :: "string \<Rightarrow> picture option \<Rightarrow> tool \<Rightarrow> tool" where
  "imshow name p s =
     (case p of
        None \<Rightarrow> s\<lparr>mode := Crashed CvError\<rparr>
      | Some pic \<Rightarrow> s\<lparr>windows := (windows s)(name := Some pic)\<rparr>)"

definition destroyWindow :: "string \<Rightarrow> tool \<Rightarrow> tool" where
  "destroyWindow name s = s\<lparr>windows := (windows s)(name := None)\<rparr>"

subsection \<open>The mouse callback (main.py, lines 14-33)\<close>

datatype mouse_event = EVENT_LBUTTONDOWN | EVENT_MOUSEMOVE | EVENT_LBUTTONUP | EVENT_OTHER

definition green :: "nat \<times> nat \<times> nat" where
  "green = (0, 255, 0)"

definition red :: "nat \<times> nat \<times> nat" where
  "red = (0, 0, 255)"

definition draw_box :: "mouse_event \<Rightarrow> int \<Rightarrow> int \<Rightarrow> tool \<Rightarrow> tool" where
  "draw_box event x y s =
     (if event = EVENT_LBUTTONDOWN then
        s\<lparr>drawing := True, ix := x, iy := y\<rparr>
      else if event = EVENT_MOUSEMOVE then
        (if drawing s then
           (case img s of
              None \<Rightarrow> s\<lparr>mode := Crashed AttributeError\<rparr>
            | Some p \<Rightarrow>
                (let img_copy = fold (\<lambda>(bx1, by1, bx2, by2). rectangle (bx1, by1) (bx2, by2) green 2)
                                  (current_boxes s) p;
                     img_copy = rectangle (ix s, iy s) (x, y) red 2 img_copy
                 in imshow ''image'' (Some img_copy) s))
         else s)
      else if event = EVENT_LBUTTONUP then
        (let s = s\<lparr>drawing := False\<rparr>;
             s = s\<lparr>current_boxes := current_boxes s @ [(ix s, iy s, x, y)]\<rparr>;
             s = s\<lparr>img := map_option (rectangle (ix s, iy s) (x, y) green 2) (img s)\<rparr>
         in imshow ''image'' (img s) s)
      else s)"

subsection \<open>The loops over splits and images (main.py, lines 37-56 and 91-92)\<close>

text \<open>
  Lines 45-56: the body of the loop over the images up to the first
  \<^verbatim>\<open>waitKey\<close>. \<^verbatim>\<open>img.shape\<close> raises when the file could not be decoded.
\<close>

definition begin_image :: "world \<Rightarrow> string \<Rightarrow> tool \<Rightarrow> tool" where
  "begin_image env name s =
     (let path = path_join (img_folder s) name;
          s = s\<lparr>img_name := name, img_path := path, img := read_picture env path\<rparr>
      in case img s of
           None \<Rightarrow> s\<lparr>mode := Crashed AttributeError\<rparr>
         | Some p \<Rightarrow>
             imshow ''image'' (img s)
               (s\<lparr>img_h := int (rows (source p)), img_w := int (cols (source p)),
                  current_boxes := [], mode := Drawing\<rparr>))"

text \<open>
  Lines 37-44, from the head of the loop over the splits to the first image found,
  and lines 91-92 when no split is left.
\<close>

fun visit_splits :: "world \<Rightarrow> string list \<Rightarrow> tool \<Rightarrow> tool" where
  "visit_splits env [] s = s\<lparr>splits_left := [], windows := (\<lambda>_. None), mode := Finished\<rparr>"
| "visit_splits env (split # rest) s =
     (let s = s\<lparr>splits_left := rest,
                img_folder := path_join (path_join dataset_folder split) ''baseball'',
                labels_folder := path_join (path_join dataset_folder split) ''labels''\<rparr>;
          s = s\<lparr>dirs := insert (labels_folder s) (dirs s)\<rparr>
      in case listdir env (img_folder s) of
           None \<Rightarrow> s\<lparr>mode := Crashed FileNotFoundError\<rparr>
         | Some names \<Rightarrow>
             (case filter is_image_name names of
                [] \<Rightarrow> visit_splits env rest (s\<lparr>img_files := []\<rparr>)
              | f # fs \<Rightarrow> begin_image env f (s\<lparr>img_files := fs\<rparr>)))"

text \<open>Leaving the drawing loop by \<^verbatim>\<open>break\<close>: the loops go on.\<close>

definition next_image :: "world \<Rightarrow> tool \<Rightarrow> tool" where
  "next_image env s =
     (case img_files s of
        f # fs \<Rightarrow> begin_image env f (s\<lparr>img_files := fs\<rparr>)
      | [] \<Rightarrow> visit_splits env (splits_left s) s)"

text \<open>The state before line 37, over a file system with the given directories and files.\<close>

definition initial :: "string set \<Rightarrow> (string \<Rightarrow> string option) \<Rightarrow> tool" where
  "initial ds fs =
     \<lparr>drawing = False, ix = - 1, iy = - 1, current_boxes = [], img = None,
      splits_left = splits, img_folder = [], labels_folder = [], img_files = [],
      img_name = [], img_path = [], img_h = 0, img_w = 0,
      windows = (\<lambda>_. None), dirs = ds, files = fs, writes = [], mode = Starting\<rparr>"

definition launch :: "world \<Rightarrow> string set \<Rightarrow> (string \<Rightarrow> string option) \<Rightarrow> tool" where
  "launch env ds fs = visit_splits env splits (initial ds fs)"

subsection \<open>The keys (main.py, lines 55-89)\<close>

definition label_path :: "tool \<Rightarrow> string" where
  "label_path s = path_join (labels_folder s) (splitext_root (img_name s) @ ''.txt'')"

text \<open>
  Lines 69-76: the file is opened for writing, which creates or empties it, and one
  line is written for each box. An exception leaves the file with what was written.
\<close>

definition save_labels :: "tool \<Rightarrow> tool" where
  "save_labels s =
     (case write_boxes (img_w s) (img_h s) (current_boxes s) of
        (text, err) \<Rightarrow>
          (let s = s\<lparr>files := (files s)(label_path s := Some text),
                     writes := writes s @ [label_path s]\<rparr>
           in case err of None \<Rightarrow> s | Some e \<Rightarrow> s\<lparr>mode := Crashed e\<rparr>))"

text \<open>Lines 61-65: the preview is rendered and shown.\<close>

definition open_preview :: "tool \<Rightarrow> tool" where
  "open_preview s =
     (case img s of
        None \<Rightarrow> s\<lparr>mode := Crashed AttributeError\<rparr>
      | Some p \<Rightarrow>
          (let preview_img = fold (\<lambda>(x1, y1, x2, y2). rectangle (x1, y1) (x2, y2) red 2)
                               (current_boxes s) p
           in imshow ''Preview'' (Some preview_img) (s\<lparr>mode := Preview\<rparr>)))"

text \<open>
  What the tool receives: a mouse event delivered to the callback while a
  \<^verbatim>\<open>waitKey\<close> is pending, or the value a \<^verbatim>\<open>waitKey\<close> returns
  (\<open>- 1\<close> when no key was pressed).
\<close>

datatype event = Mouse mouse_event int int | Key int

text \<open>A key in the drawing loop (lines 57-59 and 83-89, then line 56 again).\<close>

definition drawing_key :: "world \<Rightarrow> int \<Rightarrow> tool \<Rightarrow> tool" where
  "drawing_key env k s =
     (let key = k AND 0xFF
      in if key = ord CHR ''s'' then open_preview s
         else if key = ord CHR ''n'' then next_image env s
         else if key = ord CHR ''r'' then
           (let s = s\<lparr>current_boxes := []\<rparr>;
                s = s\<lparr>img := read_picture env (img_path s)\<rparr>
            in imshow ''image'' (img s) s)
         else imshow ''image'' (img s) s)"

text \<open>
  A key in the preview loop (lines 67-83). After \<^verbatim>\<open>y\<close> and after
  \<^verbatim>\<open>n\<close> the inner loop is left, and line 83 leaves the drawing loop as well.
\<close>

definition preview_key :: "world \<Rightarrow> int \<Rightarrow> tool \<Rightarrow> tool" where
  "preview_key env k s =
     (let k = k AND 0xFF
      in if k = ord CHR ''y'' then
           (let s = save_labels s
            in case mode s of
                 Crashed e \<Rightarrow> s
               | _ \<Rightarrow> next_image env (destroyWindow ''Preview'' s))
         else if k = ord CHR ''n'' then next_image env (destroyWindow ''Preview'' s)
         else s)"

definition step :: "world \<Rightarrow> tool \<Rightarrow> event \<Rightarrow> tool" where
  "step env s ev =
     (case mode s of
        Drawing \<Rightarrow> (case ev of Mouse e x y \<Rightarrow> draw_box e x y s | Key k \<Rightarrow> drawing_key env k s)
      | Preview \<Rightarrow> (case ev of Mouse e x y \<Rightarrow> draw_box e x y s | Key k \<Rightarrow> preview_key env k s)
      | _ \<Rightarrow> s)"

definition run :: "world \<Rightarrow> tool \<Rightarrow> event list \<Rightarrow> tool" where
  "run env s evs = foldl (step env) s evs"

subsection \<open>The trainer and the exporter (training.py, export.py)\<close>

text \<open>
  Both scripts are straight-line code around calls of the detection library. A run is
  the list of these calls, in order, each with its arguments.
\<close>

datatype pyval = PyStr string | PyInt int | PyFloat rat | PyBool bool

datatype lib_call =
    Print string
  | YOLO string
  | Train "(string \<times> pyval) list"
  | Export "(string \<times> pyval) list"

text \<open>
  training.py, lines 5-34. The argument is what \<^verbatim>\<open>torch.cuda.is_available()\<close>
  returns.
\<close>

definition training_main :: "bool \<Rightarrow> lib_call list" where
  "training_main cuda_is_available =
     (let device = (if cuda_is_available then ''cuda'' else ''cpu'')
      in [Print (''Using device: '' @ device),
          YOLO ''yolov8n.yaml'',
          Train [(''data'', PyStr ''baseball.yaml''),
                 (''epochs'', PyInt 200),
                 (''imgsz'', PyInt 960),
                 (''batch'', PyInt 16),
                 (''device'', PyStr device),
                 (''project'', PyStr ''runs/baseball_yolo''),
                 (''name'', PyStr ''from_scratch_v1''),
                 (''optimizer'', PyStr ''AdamW''),
                 (''lr0'', PyFloat (1 / 1000)),
                 (''patience'', PyInt 30),
                 (''mosaic'', PyFloat 1),
                 (''degrees'', PyInt 10),
                 (''translate'', PyFloat (1 / 10)),
                 (''scale'', PyFloat (1 / 2)),
                 (''shear'', PyFloat (2 / 10)),
                 (''flipud'', PyFloat 0),
                 (''fliplr'', PyFloat (1 / 2)),
                 (''hsv_h'', PyFloat (15 / 1000)),
                 (''hsv_s'', PyFloat (7 / 10)),
                 (''hsv_v'', PyFloat (4 / 10)),
                 (''close_mosaic'', PyInt 20)]])"

text \<open>export.py, lines 4-12.\<close>

definition export_script :: "lib_call list" where
  "export_script =
     [YOLO ''best.pt'',
      Export [(''format'', PyStr ''coreml''),
              (''nms'', PyBool True),
              (''dynamic'', PyBool False),
              (''half'', PyBool False)]]"

text \<open>What a run shows: the checkpoints loaded and the arguments of each call.\<close>

fun loaded :: "lib_call list \<Rightarrow> string list" where
  "loaded [] = []"
| "loaded (YOLO p # cs) = p # loaded cs"
| "loaded (c # cs) = loaded cs"

fun trainings :: "lib_call list \<Rightarrow> (string \<times> pyval) list list" where
  "trainings [] = []"
| "trainings (Train kw # cs) = kw # trainings cs"
| "trainings (c # cs) = trainings cs"

fun exports :: "lib_call list \<Rightarrow> (string \<times> pyval) list list" where
  "exports [] = []"
| "exports (Export kw # cs) = kw # exports cs"
| "exports (c # cs) = exports cs"

subsection \<open>Notions used by the properties\<close>

text \<open>
  The operator confirms: the key \<^verbatim>\<open>y\<close> arrives while the preview loop waits.
\<close>

definition confirms :: "tool \<Rightarrow> event \<Rightarrow> bool" where
  "confirms s ev =
     (case ev of
        Key k \<Rightarrow> mode s = Preview \<and> k AND 0xFF = ord CHR ''y''
      | Mouse e x y \<Rightarrow> False)"






text \<open>
  The corners of a box recovered from the four values of a label record and the
  dimensions of the image, as the specification's round trip reads a label back. The
  scripts contain no reader of label files.
\<close>

definition reconstruct :: "rat \<Rightarrow> rat \<Rightarrow> rat \<times> rat \<times> rat \<times> rat \<Rightarrow> rat \<times> rat \<times> rat \<times> rat" where
  "reconstruct w h v =
     (case v of (xc, yc, bw, bh) \<Rightarrow>
        ((xc - bw / 2) * w, (yc - bh / 2) * h, (xc + bw / 2) * w, (yc + bh / 2) * h))"



text \<open>
  While the tool waits for an event of an image, the image is in memory.
\<close>

definition img_loaded :: "tool \<Rightarrow> bool" where
  "img_loaded s = (mode s = Drawing \<or> mode s = Preview \<longrightarrow> img s \<noteq> None)"

subsection \<open>Rounding\<close>

text \<open>
  Python computes lines 72-75 in binary64. Where a property depends on the rounding,
  a floating-point operation is described by what IEEE 754 guarantees of it in the
  absence of overflow and underflow: the result differs from the exact value by at
  most the relative error \<open>2\<^sup>-\<^sup>5\<^sup>3\<close>.
\<close>

definition unit_roundoff :: rat where
  "unit_roundoff = 1 / 2 ^ 53"

definition rounds :: "rat \<Rightarrow> rat \<Rightarrow> bool" where
  "rounds x y = (\<bar>y - x\<bar> \<le> unit_roundoff * \<bar>x\<bar>)"

text \<open>
  The corners of a box along one axis, from the centre \<open>c\<close> and the size \<open>b\<close>
  of a record and the dimension \<open>w\<close> of the image, every operation rounded:
  \<open>t\<close> for \<open>b / 2\<close>, \<open>lo\<close> for \<open>c - t\<close>, \<open>hi\<close> for \<open>c + t\<close>,
  and the corners \<open>lo * w\<close> and \<open>hi * w\<close>.
\<close>

definition rounded_corners :: "rat \<Rightarrow> rat \<Rightarrow> rat \<Rightarrow> rat \<times> rat \<times> rat \<Rightarrow> rat \<times> rat \<Rightarrow> bool" where
  "rounded_corners w c b i x =
     (case i of (t, lo, hi) \<Rightarrow> case x of (x1, x2) \<Rightarrow>
        rounds (b / 2) t \<and> rounds (c - t) lo \<and> rounds (lo * w) x1 \<and>
        rounds (c + t) hi \<and> rounds (hi * w) x2)"

text \<open>
  Lines 72 and 74 (or 73 and 75) on corners that are floats, every operation rounded:
  \<open>s\<close> for \<open>x1 + x2\<close>, \<open>m\<close> for \<open>s / 2\<close>, the centre \<open>m / w\<close>, \<open>d\<close> for
  \<open>x2 - x1\<close>, and the size \<open>|d| / w\<close>.
\<close>

definition rounded_fields :: "rat \<Rightarrow> rat \<times> rat \<Rightarrow> rat \<times> rat \<times> rat \<Rightarrow> rat \<times> rat \<Rightarrow> bool" where
  "rounded_fields w x j v =
     (case x of (x1, x2) \<Rightarrow> case j of (s, m, d) \<Rightarrow> case v of (c', b') \<Rightarrow>
        rounds (x1 + x2) s \<and> rounds (s / 2) m \<and> rounds (m / w) c' \<and>
        rounds (x2 - x1) d \<and> rounds (\<bar>d\<bar> / w) b')"

subsection \<open>A small data set for concrete runs\<close>

text \<open>
  The training split holds two images, \<^verbatim>\<open>a.png\<close> of 100 by 100 pixels and
  \<^verbatim>\<open>b.jpg\<close> of 100 by 50 (width by height), beside a text file; the other
  splits are empty. No label file exists at the start.
\<close>

definition demo_world :: world where
  "demo_world =
     \<lparr>listdir = (\<lambda>p. if p = ''/labelling/images.cv/data/train/baseball''
                     then Some [''a.png'', ''notes.txt'', ''b.jpg'']
                     else Some []),
      imread = (\<lambda>p. if p = ''/labelling/images.cv/data/train/baseball/a.png''
                    then Some \<lparr>rows = 100, cols = 100, pixels = []\<rparr>
                    else if p = ''/labelling/images.cv/data/train/baseball/b.jpg''
                    then Some \<lparr>rows = 50, cols = 100, pixels = []\<rparr>
                    else None)\<rparr>"

definition demo_start :: tool where
  "demo_start = launch demo_world {} (\<lambda>_. None)"

definition click :: "int \<Rightarrow> int \<Rightarrow> int \<Rightarrow> int \<Rightarrow> event list" where
  "click x1 y1 x2 y2 = [Mouse EVENT_LBUTTONDOWN x1 y1, Mouse EVENT_LBUTTONUP x2 y2]"

text \<open>One box drawn on the first image and the preview opened.\<close>

definition demo_preview :: tool where
  "demo_preview = run demo_world demo_start (click 10 10 30 30 @ [Key (ord CHR ''s'')])"

text \<open>One box drawn on the first image.\<close>

definition demo_drawn :: tool where
  "demo_drawn = run demo_world demo_start (click 10 10 30 30)"

text \<open>
  The same data set with a label file left for the first image by an earlier session,
  and the preview opened on that image with no box drawn.
\<close>

definition demo_stale_files :: "string \<Rightarrow> string option" where
  "demo_stale_files =
     (\<lambda>p. if p = ''/labelling/images.cv/data/train/labels/a.txt''
          then Some (''0 0.500000 0.500000 0.100000 0.100000'' @ [CHR 0x0A])
          else None)"

definition demo_empty_preview :: tool where
  "demo_empty_preview =
     run demo_world (launch demo_world {} demo_stale_files) [Key (ord CHR ''s'')]"

text \<open>
  The loops over splits and images have advanced from one state to another: a split
  or an image of the work still to do has been taken.
\<close>

definition moved_on :: "tool \<Rightarrow> tool \<Rightarrow> bool" where
  "moved_on s s' =
     (length (splits_left s') < length (splits_left s) \<or>
      (splits_left s' = splits_left s \<and> length (img_files s') < length (img_files s)))"

text \<open>Two records agree within the tolerance \<open>10\<^sup>-\<^sup>6\<close>, value by value.\<close>

definition within_tolerance :: "rat \<times> rat \<times> rat \<times> rat \<Rightarrow> rat \<times> rat \<times> rat \<times> rat \<Rightarrow> bool" where
  "within_tolerance u v =
     (case u of (a, b, c, d) \<Rightarrow> case v of (a', b', c', d') \<Rightarrow>
        \<bar>a - a'\<bar> \<le> 1 / 1000000 \<and> \<bar>b - b'\<bar> \<le> 1 / 1000000 \<and>
        \<bar>c - c'\<bar> \<le> 1 / 1000000 \<and> \<bar>d - d'\<bar> \<le> 1 / 1000000)"

section \<open>Properties\<close>

subsection \<open>Evaluating the formatter\<close>

lemma digit_char_simps:
  "digit_char 0 = CHR ''0''" "digit_char 1 = CHR ''1''" "digit_char (Suc 0) = CHR ''1''"
  "digit_char 2 = CHR ''2''" "digit_char 3 = CHR ''3''" "digit_char 4 = CHR ''4''"
  "digit_char 5 = CHR ''5''" "digit_char 6 = CHR ''6''" "digit_char 7 = CHR ''7''"
  "digit_char 8 = CHR ''8''" "digit_char 9 = CHR ''9''"
  unfolding digit_char_def by code_simp+

lemma fmt6_examples:
  "fmt6 (1 / 5) = ''0.200000''" "fmt6 (2 / 5) = ''0.400000''"
  "fmt6 (1 / 4) = ''0.250000''" "fmt6 (1 / 2) = ''0.500000''"
  "fmt6 0 = ''0.000000''" "fmt6 (1 / 20) = ''0.050000''"
  by (simp_all add: fmt6_def round_half_even_def frac6_def digit_char_simps show_nat.simps)

subsection \<open>The values of a label record\<close>











subsection \<open>Reading a record back\<close>

lemma rounds_exact: "rounds x x"
  by (simp add: rounds_def unit_roundoff_def)

text \<open>The rounded computations contain the exact ones.\<close>

lemma rounded_corners_exact:
  "rounded_corners w c b (b / 2, c - b / 2, c + b / 2) ((c - b / 2) * w, (c + b / 2) * w)"
  by (simp add: rounded_corners_def rounds_exact)

lemma rounded_fields_exact:
  "rounded_fields w (x1, x2) (x1 + x2, (x1 + x2) / 2, x2 - x1)
     ((x1 + x2) / 2 / w, \<bar>x2 - x1\<bar> / w)"
  by (simp add: rounded_fields_def rounds_exact)

lemma rounds_bound:
  assumes "rounds x y" and "\<bar>x\<bar> \<le> B"
  shows "\<bar>y - x\<bar> \<le> B / 9007199254740992"
proof -
  have "unit_roundoff * \<bar>x\<bar> \<le> unit_roundoff * B"
    using assms(2) by (intro mult_left_mono) (simp_all add: unit_roundoff_def)
  then show ?thesis using assms(1) by (simp add: rounds_def unit_roundoff_def)
qed

lemma scale_diff:
  fixes p q k w :: rat
  assumes "\<bar>p - q\<bar> \<le> k" and "0 \<le> w"
  shows "\<bar>p * w - q * w\<bar> \<le> k * w"
proof -
  have "\<bar>p * w - q * w\<bar> = \<bar>p - q\<bar> * w"
    using assms(2) by (simp add: left_diff_distrib [symmetric] abs_mult)
  then show ?thesis using assms by (simp add: mult_right_mono)
qed

lemma scale_abs:
  fixes p k w :: rat
  assumes "\<bar>p\<bar> \<le> k" and "0 \<le> w"
  shows "\<bar>p * w\<bar> \<le> k * w"
  using assms by (simp add: abs_mult mult_right_mono)

lemma unscale_diff:
  fixes p q k w :: rat
  assumes "\<bar>p - q * w\<bar> \<le> k * w" and "0 < w"
  shows "\<bar>p / w - q\<bar> \<le> k"
proof -
  have "p / w - q = (p - q * w) / w" using assms(2) by (simp add: field_simps)
  then have "\<bar>p / w - q\<bar> = \<bar>p - q * w\<bar> / w" using assms(2) by (simp add: abs_divide)
  then show ?thesis using assms by (simp add: divide_le_eq)
qed

lemma unscale_abs:
  fixes p k w :: rat
  assumes "\<bar>p\<bar> \<le> k * w" and "0 < w"
  shows "\<bar>p / w\<bar> \<le> k"
  using assms by (simp add: abs_divide divide_le_eq)

text \<open>
  One axis of the round trip under rounding: the error of every operation is followed
  through the ten operations, all quantities being bounded by a small multiple of the
  dimension.
\<close>

lemma axis_round_trip:
  assumes c: "0 \<le> c" "c \<le> 1" and b: "0 \<le> b" "b \<le> 1" and w: "1 \<le> w"
    and i: "rounded_corners w c b (t, lo, hi) (x1, x2)"
    and j: "rounded_fields w (x1, x2) (s, m, d) (c', b')"
  shows "\<bar>c' - c\<bar> \<le> 11 / 9007199254740992" and "\<bar>b' - b\<bar> \<le> 14 / 9007199254740992"
proof -
  have w0: "0 \<le> w" "0 < w" using w by simp_all
  from i have rt: "rounds (b / 2) t" and rlo: "rounds (c - t) lo"
    and rx1: "rounds (lo * w) x1" and rhi: "rounds (c + t) hi" and rx2: "rounds (hi * w) x2"
    by (simp_all add: rounded_corners_def)
  from j have rs: "rounds (x1 + x2) s" and rm: "rounds (s / 2) m" and rc: "rounds (m / w) c'"
    and rd: "rounds (x2 - x1) d" and rb: "rounds (\<bar>d\<bar> / w) b'"
    by (simp_all add: rounded_fields_def)
  have "\<bar>b / 2\<bar> \<le> 1" using b by linarith
  from rounds_bound [OF rt this] have t1: "\<bar>t - b / 2\<bar> \<le> 1 / 9007199254740992" .
  have "\<bar>c - t\<bar> \<le> 2" using c b t1 by linarith
  from rounds_bound [OF rlo this] have lo0: "\<bar>lo - (c - t)\<bar> \<le> 2 / 9007199254740992" .
  have lo1: "\<bar>lo - (c - b / 2)\<bar> \<le> 3 / 9007199254740992" using lo0 t1 by linarith
  have lo2: "\<bar>lo\<bar> \<le> 2" using lo1 c b by linarith
  have "\<bar>c + t\<bar> \<le> 2" using c b t1 by linarith
  from rounds_bound [OF rhi this] have hi0: "\<bar>hi - (c + t)\<bar> \<le> 2 / 9007199254740992" .
  have hi1: "\<bar>hi - (c + b / 2)\<bar> \<le> 3 / 9007199254740992" using hi0 t1 by linarith
  have hi2: "\<bar>hi\<bar> \<le> 2" using hi1 c b by linarith
  from rounds_bound [OF rx1 scale_abs [OF lo2 w0(1)]]
  have x1a: "\<bar>x1 - lo * w\<bar> \<le> 2 * w / 9007199254740992" .
  have x1b: "\<bar>lo * w - (c - b / 2) * w\<bar> \<le> 3 / 9007199254740992 * w"
    by (rule scale_diff [OF lo1 w0(1)])
  from rounds_bound [OF rx2 scale_abs [OF hi2 w0(1)]]
  have x2a: "\<bar>x2 - hi * w\<bar> \<le> 2 * w / 9007199254740992" .
  have x2b: "\<bar>hi * w - (c + b / 2) * w\<bar> \<le> 3 / 9007199254740992 * w"
    by (rule scale_diff [OF hi1 w0(1)])
  have cw: "0 \<le> c * w" "c * w \<le> w" using c w0 by (simp_all add: mult_left_le_one_le)
  have bw: "0 \<le> b * w" "b * w \<le> w" using b w0 by (simp_all add: mult_left_le_one_le)
  have e1: "(c - b / 2) * w = c * w - (b * w) / 2" by (simp add: algebra_simps)
  have e2: "(c + b / 2) * w = c * w + (b * w) / 2" by (simp add: algebra_simps)
  have x1: "\<bar>x1 - (c * w - (b * w) / 2)\<bar> \<le> 5 * w / 9007199254740992"
    using x1a x1b unfolding e1 by linarith
  have x2: "\<bar>x2 - (c * w + (b * w) / 2)\<bar> \<le> 5 * w / 9007199254740992"
    using x2a x2b unfolding e2 by linarith
  have sum: "\<bar>(x1 + x2) - 2 * (c * w)\<bar> \<le> 10 * w / 9007199254740992"
    using x1 x2 by linarith
  have sumB: "\<bar>x1 + x2\<bar> \<le> 3 * w" using sum cw w0 by linarith
  from rounds_bound [OF rs sumB] have s1: "\<bar>s - (x1 + x2)\<bar> \<le> 3 * w / 9007199254740992" .
  have s2: "\<bar>s - 2 * (c * w)\<bar> \<le> 13 * w / 9007199254740992" using s1 sum by linarith
  have sB: "\<bar>s / 2\<bar> \<le> 2 * w" using s2 cw w0 by linarith
  from rounds_bound [OF rm sB] have m1: "\<bar>m - s / 2\<bar> \<le> 2 * w / 9007199254740992" .
  have m2: "\<bar>m - c * w\<bar> \<le> 9 / 9007199254740992 * w" using m1 s2 by linarith
  have mB: "\<bar>m\<bar> \<le> 2 * w" using m2 cw w0 by linarith
  have q1: "\<bar>m / w - c\<bar> \<le> 9 / 9007199254740992" by (rule unscale_diff [OF m2 w0(2)])
  have q2: "\<bar>m / w\<bar> \<le> 2" by (rule unscale_abs [OF mB w0(2)])
  from rounds_bound [OF rc q2] have "\<bar>c' - m / w\<bar> \<le> 2 / 9007199254740992" .
  then show "\<bar>c' - c\<bar> \<le> 11 / 9007199254740992" using q1 by linarith
  have dif: "\<bar>(x2 - x1) - b * w\<bar> \<le> 10 * w / 9007199254740992"
    using x1 x2 by linarith
  have difB: "\<bar>x2 - x1\<bar> \<le> 2 * w" using dif bw w0 by linarith
  from rounds_bound [OF rd difB] have d1: "\<bar>d - (x2 - x1)\<bar> \<le> 2 * w / 9007199254740992" .
  have d3: "\<bar>\<bar>d\<bar> - b * w\<bar> \<le> 12 / 9007199254740992 * w" using d1 dif bw by linarith
  have dB: "\<bar>\<bar>d\<bar>\<bar> \<le> 2 * w" using d3 bw w0 by linarith
  have r1: "\<bar>\<bar>d\<bar> / w - b\<bar> \<le> 12 / 9007199254740992"
    by (rule unscale_diff [OF d3 w0(2)])
  have r2: "\<bar>\<bar>d\<bar> / w\<bar> \<le> 2" by (rule unscale_abs [OF dB w0(2)])
  from rounds_bound [OF rb r2] have "\<bar>b' - \<bar>d\<bar> / w\<bar> \<le> 2 / 9007199254740992" .
  then show "\<bar>b' - b\<bar> \<le> 14 / 9007199254740992" using r1 by linarith
qed

text \<open>In exact arithmetic the formulas of lines 72-75 undo the reconstruction.\<close>

lemma round_trip_exact:
  assumes "0 < w" and "0 < h" and "0 \<le> bw" and "0 \<le> bh"
  shows "normalize (of_int w) (of_int h)
           (reconstruct (of_int w) (of_int h) (xc, yc, bw, bh)) = Inr (xc, yc, bw, bh)"
proof -
  have w: "(of_int w :: rat) \<noteq> 0" "(0::rat) < of_int w" using assms by simp_all
  have h: "(of_int h :: rat) \<noteq> 0" "(0::rat) < of_int h" using assms by simp_all
  have cx: "((xc - bw / 2) * of_int w + (xc + bw / 2) * of_int w) / 2 / of_int w = xc"
    using w by (simp add: field_simps)
  have cy: "((yc - bh / 2) * of_int h + (yc + bh / 2) * of_int h) / 2 / of_int h = yc"
    using h by (simp add: field_simps)
  have "(xc + bw / 2) * of_int w - (xc - bw / 2) * of_int w = bw * of_int w"
    by (simp add: field_simps)
  then have sx: "\<bar>(xc + bw / 2) * of_int w - (xc - bw / 2) * of_int w\<bar> / of_int w = bw"
    using w assms(3) by (simp add: abs_mult)
  have "(yc + bh / 2) * of_int h - (yc - bh / 2) * of_int h = bh * of_int h"
    by (simp add: field_simps)
  then have sy: "\<bar>(yc + bh / 2) * of_int h - (yc - bh / 2) * of_int h\<bar> / of_int h = bh"
    using h assms(4) by (simp add: abs_mult)
  show ?thesis
    unfolding normalize_def reconstruct_def prod.case truediv_def
    using w h by (simp only: cx cy sx sy if_False sum.case)
qed

text \<open>
  C7. Take the values \<open>(xc, yc, bw, bh)\<close> of a label line, each between 0 and 1, and
  an image of positive dimensions. The corners \<open>x1 = (xc - bw / 2) * w\<close>,
  \<open>x2 = (xc + bw / 2) * w\<close> (and likewise for \<open>y\<close>), put through the formulas of
  lines 72-75 again, give the values back: exactly in exact arithmetic, and within
  the tolerance \<open>10\<^sup>-\<^sup>6\<close> when every operation of the reconstruction and of the
  formulas is rounded as binary64 rounds.
\<close>

theorem round_trip:
  assumes "0 < w" and "0 < h"
    and "0 \<le> xc" "xc \<le> 1" and "0 \<le> yc" "yc \<le> 1"
    and "0 \<le> bw" "bw \<le> 1" and "0 \<le> bh" "bh \<le> 1"
    and "rounded_corners (of_int w) xc bw cx (x1, x2)"
    and "rounded_fields (of_int w) (x1, x2) fx (xc', bw')"
    and "rounded_corners (of_int h) yc bh cy (y1, y2)"
    and "rounded_fields (of_int h) (y1, y2) fy (yc', bh')"
  shows "normalize (of_int w) (of_int h)
           (reconstruct (of_int w) (of_int h) (xc, yc, bw, bh)) = Inr (xc, yc, bw, bh)
       \<and> within_tolerance (xc', yc', bw', bh') (xc, yc, bw, bh)"
proof -
  obtain t lo hi where cx: "cx = (t, lo, hi)" by (cases cx) auto
  obtain s m d where fx: "fx = (s, m, d)" by (cases fx) auto
  obtain t' lo' hi' where cy: "cy = (t', lo', hi')" by (cases cy) auto
  obtain s' m' d' where fy: "fy = (s', m', d')" by (cases fy) auto
  have w: "(1::rat) \<le> of_int w" and h: "(1::rat) \<le> of_int h"
    using assms(1,2) by (simp_all add: int_one_le_iff_zero_less)
  have x: "\<bar>xc' - xc\<bar> \<le> 11 / 9007199254740992" "\<bar>bw' - bw\<bar> \<le> 14 / 9007199254740992"
    using axis_round_trip [OF assms(3,4,7,8) w assms(11,12) [unfolded cx fx]] by blast+
  have y: "\<bar>yc' - yc\<bar> \<le> 11 / 9007199254740992" "\<bar>bh' - bh\<bar> \<le> 14 / 9007199254740992"
    using axis_round_trip [OF assms(5,6,9,10) h assms(13,14) [unfolded cy fy]] by blast+
  have "within_tolerance (xc', yc', bw', bh') (xc, yc, bw, bh)"
    unfolding within_tolerance_def prod.case using x y by linarith
  with round_trip_exact [OF assms(1,2,7,9)] show ?thesis by blast
qed

text \<open>
  At the record \<open>(1/4, 1/2, 1/2, 1/4)\<close> of an image of 100 by 100 pixels every
  intermediate value is a binary64 number, so that no operation rounds.
\<close>

theorem round_trip_witness:
  "rounded_corners 100 (1 / 4) (1 / 2) (1 / 4, 0, 1 / 2) (0, 50)
   \<and> rounded_fields 100 (0, 50) (50, 25, 50) (1 / 4, 1 / 2)
   \<and> rounded_corners 100 (1 / 2) (1 / 4) (1 / 8, 3 / 8, 5 / 8) (75 / 2, 125 / 2)
   \<and> rounded_fields 100 (75 / 2, 125 / 2) (100, 50, 25) (1 / 2, 1 / 4)
   \<and> reconstruct 100 100 (1 / 4, 1 / 2, 1 / 2, 1 / 4) = (0, 75 / 2, 50, 125 / 2)
   \<and> normalize 100 100 (0, 75 / 2, 50, 125 / 2) = Inr (1 / 4, 1 / 2, 1 / 2, 1 / 4)
   \<and> within_tolerance (1 / 4, 1 / 2, 1 / 2, 1 / 4) (1 / 4, 1 / 2, 1 / 2, 1 / 4)"
proof -
  have c: "rounded_corners (of_int 100) (1 / 4) (1 / 2) (1 / 4, 0, 1 / 2) (0, 50)"
    "rounded_corners (of_int 100) (1 / 2) (1 / 4) (1 / 8, 3 / 8, 5 / 8) (75 / 2, 125 / 2)"
    by (simp_all add: rounded_corners_def rounds_def unit_roundoff_def)
  have f: "rounded_fields (of_int 100) (0, 50) (50, 25, 50) (1 / 4, 1 / 2)"
    "rounded_fields (of_int 100) (75 / 2, 125 / 2) (100, 50, 25) (1 / 2, 1 / 4)"
    by (simp_all add: rounded_fields_def rounds_def unit_roundoff_def)
  have r: "reconstruct 100 100 (1 / 4, 1 / 2, 1 / 2, 1 / 4) = (0, 75 / 2, 50, 125 / 2)"
    by (simp add: reconstruct_def)
  from round_trip [OF _ _ _ _ _ _ _ _ _ _ c(1) f(1) c(2) f(2)]
  have "normalize (of_int 100) (of_int 100)
           (reconstruct (of_int 100) (of_int 100) (1 / 4, 1 / 2, 1 / 2, 1 / 4))
          = Inr (1 / 4, 1 / 2, 1 / 2, 1 / 4)
       \<and> within_tolerance (1 / 4, 1 / 2, 1 / 2, 1 / 4) (1 / 4, 1 / 2, 1 / 2, 1 / 4)"
    by simp
  with c f r show ?thesis by simp
qed

subsection \<open>The trainer and the exporter\<close>

text \<open>
  C8. The trainer makes one training call, and the device it passes is \<open>cuda\<close> when
  an accelerator is available and \<open>cpu\<close> otherwise: a function of the availability
  alone.
\<close>

theorem trainer_device:
  "map (\<lambda>kw. map_of kw ''device'') (trainings (training_main available))
     = [Some (PyStr (if available then ''cuda'' else ''cpu''))]"
  by (simp add: training_main_def Let_def)

text \<open>
  C9. The exporter loads one checkpoint and makes one export call, whose options are
  constants: suppression on, variable input size off, half precision off.
\<close>

theorem exporter_call:
  "loaded export_script = [''best.pt'']
   \<and> exports export_script =
       [[(''format'', PyStr ''coreml''), (''nms'', PyBool True),
         (''dynamic'', PyBool False), (''half'', PyBool False)]]"
  by (simp add: export_script_def)

subsection \<open>The shape of a label line\<close>



















subsection \<open>What the steps of the tool leave unchanged\<close>

lemma imshow_frame [simp]:
  "files (imshow n p s) = files s" "writes (imshow n p s) = writes s"
  "current_boxes (imshow n p s) = current_boxes s" "img (imshow n p s) = img s"
  "img_name (imshow n p s) = img_name s" "labels_folder (imshow n p s) = labels_folder s"
  "img_w (imshow n p s) = img_w s" "img_h (imshow n p s) = img_h s"
  by (simp_all add: imshow_def split: option.split)

lemma destroyWindow_frame [simp]:
  "files (destroyWindow n s) = files s" "writes (destroyWindow n s) = writes s"
  "current_boxes (destroyWindow n s) = current_boxes s" "mode (destroyWindow n s) = mode s"
  by (simp_all add: destroyWindow_def)

lemma draw_box_frame [simp]:
  "files (draw_box e x y s) = files s" "writes (draw_box e x y s) = writes s"
  by (simp_all add: draw_box_def Let_def split: option.split)

lemma begin_image_frame [simp]:
  "files (begin_image env f s) = files s" "writes (begin_image env f s) = writes s"
  by (simp_all add: begin_image_def Let_def split: option.split)

lemma visit_splits_frame [simp]:
  "files (visit_splits env sps s) = files s" "writes (visit_splits env sps s) = writes s"
  by (induction env sps s rule: visit_splits.induct; simp add: Let_def split: option.split list.split)+

lemma next_image_frame [simp]:
  "files (next_image env s) = files s" "writes (next_image env s) = writes s"
  by (simp_all add: next_image_def split: list.split)

lemma open_preview_frame [simp]:
  "files (open_preview s) = files s" "writes (open_preview s) = writes s"
  by (simp_all add: open_preview_def Let_def split: option.split)

lemma drawing_key_frame [simp]:
  "files (drawing_key env k s) = files s" "writes (drawing_key env k s) = writes s"
  by (simp_all add: drawing_key_def Let_def)

lemma save_labels_effect:
  "files (save_labels s) =
     (files s)(label_path s := Some (fst (write_boxes (img_w s) (img_h s) (current_boxes s))))"
  "writes (save_labels s) = writes s @ [label_path s]"
  by (simp_all add: save_labels_def Let_def split: prod.split option.split)

lemma preview_key_effect:
  "files (preview_key env k s) =
     (if k AND 0xFF = ord CHR ''y''
      then (files s)(label_path s := Some (fst (write_boxes (img_w s) (img_h s) (current_boxes s))))
      else files s)"
  "writes (preview_key env k s) =
     (if k AND 0xFF = ord CHR ''y'' then writes s @ [label_path s] else writes s)"
  by (simp_all add: preview_key_def Let_def save_labels_effect split: mode.split)

lemma step_effect:
  "files (step env s ev) =
     (if confirms s ev
      then (files s)(label_path s := Some (fst (write_boxes (img_w s) (img_h s) (current_boxes s))))
      else files s)"
  "writes (step env s ev) = writes s @ (if confirms s ev then [label_path s] else [])"
  by (auto simp add: step_def confirms_def preview_key_effect split: mode.split event.split)

lemma run_Nil [simp]: "run env s [] = s"
  by (simp add: run_def)

lemma run_Cons [simp]: "run env s (ev # evs) = run env (step env s ev) evs"
  by (simp add: run_def)



subsection \<open>Concrete runs\<close>

lemmas tool_defs =
  launch_def initial_def splits_def dataset_folder_def path_join_def is_image_name_def
  endswith_def lower_char_def begin_image_def read_picture_def imshow_def next_image_def
  step_def run_def draw_box_def drawing_key_def preview_key_def open_preview_def
  save_labels_def destroyWindow_def label_path_def splitext_root_def ord_def click_def
  Let_def rectangle_def green_def red_def confirms_def

lemma demo_preview_facts:
  "mode demo_preview = Preview" "img_name demo_preview = ''a.png''"
  "img_w demo_preview = 100" "img_h demo_preview = 100"
  "current_boxes demo_preview = [(10, 10, 30, 30)]"
  "files demo_preview = (\<lambda>_. None)" "writes demo_preview = []"
  "label_path demo_preview = ''/labelling/images.cv/data/train/labels/a.txt''"
  by (simp_all add: demo_preview_def demo_start_def demo_world_def tool_defs)

subsection \<open>When a label file is written\<close>



subsection \<open>Cancelling in the preview\<close>

lemma begin_image_fresh:
  "mode (begin_image env f s) \<noteq> Preview"
  "mode (begin_image env f s) = Drawing \<Longrightarrow> current_boxes (begin_image env f s) = []"
  "splits_left (begin_image env f s) = splits_left s"
  "img_files (begin_image env f s) = img_files s"
  by (simp_all add: begin_image_def imshow_def Let_def split: option.splits)

lemma visit_splits_fresh:
  "mode (visit_splits env sps s) \<noteq> Preview
   \<and> (mode (visit_splits env sps s) = Drawing \<longrightarrow>
        current_boxes (visit_splits env sps s) = []
        \<and> length (splits_left (visit_splits env sps s)) < length sps)"
proof (induction sps arbitrary: s)
  case Nil
  then show ?case by simp
next
  case (Cons split rest)
  have less: "n < length rest \<Longrightarrow> n < Suc (length rest)" for n by simp
  show ?case
    using Cons.IH
    by (auto simp add: Let_def begin_image_fresh split: option.splits list.splits intro: less)
qed

lemma next_image_fresh:
  "mode (next_image env s) \<noteq> Preview"
  "mode (next_image env s) = Drawing \<Longrightarrow> current_boxes (next_image env s) = []"
  "mode (next_image env s) = Drawing \<Longrightarrow> moved_on s (next_image env s)"
  using visit_splits_fresh [of env "splits_left s" s]
  by (auto simp add: next_image_def moved_on_def begin_image_fresh split: list.splits)

lemma destroyWindow_lists [simp]:
  "img_files (destroyWindow n s) = img_files s" "splits_left (destroyWindow n s) = splits_left s"
  by (simp_all add: destroyWindow_def)

lemma moved_on_destroyWindow [simp]: "moved_on (destroyWindow n s) s' = moved_on s s'"
  by (simp add: moved_on_def)

text \<open>
  C3, amended. The key \<^verbatim>\<open>n\<close> in the preview writes no label file, and it does
  not return to drawing on the same image: after the preview loop, line 83 leaves the
  drawing loop whichever key ended the preview, so the tool goes on as after a skip.
  It is never in the preview afterwards, and when it is drawing again, the loops have
  moved on to another image, whose box list is empty.
\<close>

theorem cancel_in_preview:
  assumes "mode s = Preview" and "k AND 0xFF = ord CHR ''n''"
  shows "files (step env s (Key k)) = files s
       \<and> writes (step env s (Key k)) = writes s
       \<and> step env s (Key k) = next_image env (destroyWindow ''Preview'' s)
       \<and> mode (step env s (Key k)) \<noteq> Preview
       \<and> (mode (step env s (Key k)) = Drawing \<longrightarrow>
            current_boxes (step env s (Key k)) = [] \<and> moved_on s (step env s (Key k)))"
proof -
  have ny: "k AND 0xFF \<noteq> ord CHR ''y''" using assms(2) by (simp add: ord_def)
  have st: "step env s (Key k) = next_image env (destroyWindow ''Preview'' s)"
    using assms ny by (simp add: step_def preview_key_def Let_def)
  show ?thesis
    unfolding st
    using next_image_fresh [of env "destroyWindow ''Preview'' s"]
    by simp
qed

theorem cancel_in_preview_witness:
  "mode demo_preview = Preview \<and> ord CHR ''n'' AND 0xFF = ord CHR ''n''
   \<and> files (step demo_world demo_preview (Key (ord CHR ''n''))) = files demo_preview
   \<and> writes (step demo_world demo_preview (Key (ord CHR ''n''))) = []
   \<and> mode (step demo_world demo_preview (Key (ord CHR ''n''))) = Drawing
   \<and> img_name (step demo_world demo_preview (Key (ord CHR ''n''))) = ''b.jpg''
   \<and> current_boxes (step demo_world demo_preview (Key (ord CHR ''n''))) = []
   \<and> moved_on demo_preview (step demo_world demo_preview (Key (ord CHR ''n'')))"
proof -
  let ?s = "step demo_world demo_preview (Key (ord CHR ''n''))"
  have p: "mode demo_preview = Preview" by (simp add: demo_preview_facts)
  have k: "ord CHR ''n'' AND 0xFF = ord CHR ''n''" by (simp add: ord_def)
  have m: "mode ?s = Drawing" "img_name ?s = ''b.jpg''"
    by (simp_all add: demo_preview_def demo_start_def demo_world_def tool_defs)
  note t = cancel_in_preview [OF p k, of demo_world]
  from t have f: "files ?s = files demo_preview" by blast
  from t have "writes ?s = writes demo_preview" by blast
  then have w: "writes ?s = []" by (simp only: demo_preview_facts)
  from t m(1) have c: "current_boxes ?s = []" "moved_on demo_preview ?s" by blast+
  from p k f w m c show ?thesis by blast
qed

text \<open>
  C3, as stated, fails: with one box committed on \<^verbatim>\<open>a.png\<close> and the preview
  open, \<^verbatim>\<open>n\<close> takes the tool to \<^verbatim>\<open>b.jpg\<close> with an empty box list.
\<close>

theorem cancel_leaves_image_counterexample:
  "mode demo_preview = Preview
   \<and> img_name demo_preview = ''a.png''
   \<and> current_boxes demo_preview = [(10, 10, 30, 30)]
   \<and> mode (step demo_world demo_preview (Key (ord CHR ''n''))) = Drawing
   \<and> img_name (step demo_world demo_preview (Key (ord CHR ''n''))) = ''b.jpg''
   \<and> current_boxes (step demo_world demo_preview (Key (ord CHR ''n''))) = []
   \<and> current_boxes (step demo_world demo_preview (Key (ord CHR ''n'')))
       \<noteq> current_boxes demo_preview"
  by (simp add: demo_preview_def demo_start_def demo_world_def tool_defs)

subsection \<open>Reset\<close>

text \<open>
  C4. The key \<^verbatim>\<open>r\<close> in the drawing loop empties the box list and reads the image
  again from its file, so that no drawn rectangle remains on it; it changes no file and
  opens none for writing, and the image and its label path stay the same.
\<close>

theorem reset_discards_boxes:
  assumes "mode s = Drawing" and "k AND 0xFF = ord CHR ''r''"
  shows "current_boxes (step env s (Key k)) = []
       \<and> img (step env s (Key k)) = read_picture env (img_path s)
       \<and> files (step env s (Key k)) = files s
       \<and> writes (step env s (Key k)) = writes s
       \<and> img_name (step env s (Key k)) = img_name s
       \<and> label_path (step env s (Key k)) = label_path s
       \<and> (case imread env (img_path s) of
            Some r \<Rightarrow> img (step env s (Key k)) = Some \<lparr>source = r, overlay = []\<rparr>
                      \<and> mode (step env s (Key k)) = Drawing
          | None \<Rightarrow> mode (step env s (Key k)) = Crashed CvError)"
proof -
  have k: "k AND 0xFF \<noteq> ord CHR ''s''" "k AND 0xFF \<noteq> ord CHR ''n''"
    using assms(2) by (simp_all add: ord_def)
  show ?thesis
    using assms k
    by (simp add: step_def drawing_key_def Let_def imshow_def read_picture_def label_path_def
        split: option.splits)
qed

theorem reset_discards_boxes_witness:
  "mode demo_drawn = Drawing \<and> ord CHR ''r'' AND 0xFF = ord CHR ''r''
   \<and> current_boxes demo_drawn = [(10, 10, 30, 30)]
   \<and> img demo_drawn = Some \<lparr>source = \<lparr>rows = 100, cols = 100, pixels = []\<rparr>,
                             overlay = [((10, 10), (30, 30), (0, 255, 0), 2)]\<rparr>
   \<and> current_boxes (step demo_world demo_drawn (Key (ord CHR ''r''))) = []
   \<and> img (step demo_world demo_drawn (Key (ord CHR ''r'')))
       = Some \<lparr>source = \<lparr>rows = 100, cols = 100, pixels = []\<rparr>, overlay = []\<rparr>
   \<and> mode (step demo_world demo_drawn (Key (ord CHR ''r''))) = Drawing
   \<and> files (step demo_world demo_drawn (Key (ord CHR ''r''))) = files demo_drawn"
proof -
  let ?s = "step demo_world demo_drawn (Key (ord CHR ''r''))"
  have d: "mode demo_drawn = Drawing" "current_boxes demo_drawn = [(10, 10, 30, 30)]"
    "img demo_drawn = Some \<lparr>source = \<lparr>rows = 100, cols = 100, pixels = []\<rparr>,
                             overlay = [((10, 10), (30, 30), (0, 255, 0), 2)]\<rparr>"
    by (simp_all add: demo_drawn_def demo_start_def demo_world_def tool_defs)
  have k: "ord CHR ''r'' AND 0xFF = ord CHR ''r''" by (simp add: ord_def)
  have r: "imread demo_world (img_path demo_drawn)
             = Some \<lparr>rows = 100, cols = 100, pixels = []\<rparr>"
    by (simp add: demo_drawn_def demo_start_def demo_world_def tool_defs)
  note t = reset_discards_boxes [OF d(1) k, of demo_world]
  from t have b: "current_boxes ?s = []" and f: "files ?s = files demo_drawn" by blast+
  from t have "case imread demo_world (img_path demo_drawn) of
            Some r \<Rightarrow> img ?s = Some \<lparr>source = r, overlay = []\<rparr> \<and> mode ?s = Drawing
          | None \<Rightarrow> mode ?s = Crashed CvError" by blast
  then have i: "img ?s = Some \<lparr>source = \<lparr>rows = 100, cols = 100, pixels = []\<rparr>, overlay = []\<rparr>"
    and m: "mode ?s = Drawing"
    by (simp_all only: r option.case)
  from d k b i m f show ?thesis by blast
qed

subsection \<open>Confirming without boxes\<close>

text \<open>
  C10. The key \<^verbatim>\<open>y\<close> in the preview with no box committed still opens the label
  file of the image for writing, and leaves it empty, whatever it held before.
\<close>

theorem confirm_without_boxes:
  assumes "mode s = Preview" and "current_boxes s = []" and "k AND 0xFF = ord CHR ''y''"
  shows "files (step env s (Key k)) (label_path s) = Some []
       \<and> writes (step env s (Key k)) = writes s @ [label_path s]"
  using assms by (simp add: step_effect confirms_def)

theorem confirm_without_boxes_witness:
  "mode demo_empty_preview = Preview \<and> current_boxes demo_empty_preview = []
   \<and> ord CHR ''y'' AND 0xFF = ord CHR ''y''
   \<and> label_path demo_empty_preview = ''/labelling/images.cv/data/train/labels/a.txt''
   \<and> files demo_empty_preview ''/labelling/images.cv/data/train/labels/a.txt''
       = Some (''0 0.500000 0.500000 0.100000 0.100000'' @ [CHR 0x0A])
   \<and> files (step demo_world demo_empty_preview (Key (ord CHR ''y'')))
        ''/labelling/images.cv/data/train/labels/a.txt'' = Some []
   \<and> writes (step demo_world demo_empty_preview (Key (ord CHR ''y'')))
       = [''/labelling/images.cv/data/train/labels/a.txt'']"
proof -
  let ?s = "step demo_world demo_empty_preview (Key (ord CHR ''y''))"
  let ?p = "''/labelling/images.cv/data/train/labels/a.txt''"
  have d: "mode demo_empty_preview = Preview" "current_boxes demo_empty_preview = []"
    by (simp_all add: demo_empty_preview_def demo_stale_files_def demo_world_def tool_defs)
  have l: "label_path demo_empty_preview = ?p"
    and o: "files demo_empty_preview ?p
       = Some (''0 0.500000 0.500000 0.100000 0.100000'' @ [CHR 0x0A])"
    and e: "writes demo_empty_preview = []"
    by (simp_all add: demo_empty_preview_def demo_stale_files_def demo_world_def tool_defs)
  have k: "ord CHR ''y'' AND 0xFF = ord CHR ''y''" by (simp add: ord_def)
  note t = confirm_without_boxes [OF d k, of demo_world]
  from t have f: "files ?s ?p = Some []" by (simp only: l)
  from t have w: "writes ?s = [?p]" by (simp only: l e append_Nil)
  from d k l o f w show ?thesis by blast
qed

subsection \<open>A session with a reset\<close>

lemma run_snoc: "run env s (evs @ [ev]) = step env (run env s evs) ev"
  by (simp add: run_def)

lemma label_line_half:
  "write_boxes 100 100 [(0, 0, 50, 50)]
     = (''0 0.250000 0.250000 0.500000 0.500000'' @ [CHR 0x0A], None)"
  by (simp add: label_line_def label_fields_def normalize_def truediv_def format_line_def
      class_id_def show_int_def show_nat.simps digit_char_simps fmt6_examples)

text \<open>
  C6. On an image of 100 by 100 pixels: two boxes are drawn, \<^verbatim>\<open>r\<close> is pressed, the
  box \<open>(0, 0, 50, 50)\<close> is drawn, and the save is confirmed with \<^verbatim>\<open>s\<close> and
  \<^verbatim>\<open>y\<close>. The label file of the image then holds exactly the one line
  \<^verbatim>\<open>0 0.250000 0.250000 0.500000 0.500000\<close>.
\<close>

theorem reset_scenario:
  assumes "mode s = Drawing" and "img s = Some p" and "imread env (img_path s) = Some r"
    and "img_w s = 100" and "img_h s = 100"
  shows "files (run env s (click a b c d @ click e f g i @ [Key (ord CHR ''r'')]
                          @ click 0 0 50 50 @ [Key (ord CHR ''s'')] @ [Key (ord CHR ''y'')]))
           (label_path s)
         = Some (''0 0.250000 0.250000 0.500000 0.500000'' @ [CHR 0x0A])"
proof -
  let ?evs = "click a b c d @ click e f g i @ [Key (ord CHR ''r'')]
                @ click 0 0 50 50 @ [Key (ord CHR ''s'')]"
  let ?t = "run env s ?evs"
  have t: "mode ?t = Preview" "current_boxes ?t = [(0, 0, 50, 50)]"
    "img_w ?t = 100" "img_h ?t = 100" "label_path ?t = label_path s"
    using assms
    by (simp_all add: run_def click_def step_def draw_box_def drawing_key_def open_preview_def
        imshow_def read_picture_def rectangle_def label_path_def ord_def Let_def)
  have "run env s (?evs @ [Key (ord CHR ''y'')]) = step env ?t (Key (ord CHR ''y''))"
    by (rule run_snoc)
  moreover have "confirms ?t (Key (ord CHR ''y''))"
    using t(1) by (simp add: confirms_def ord_def)
  ultimately show ?thesis
    using t by (simp only: append_assoc step_effect label_line_half if_True fst_conv fun_upd_same)
qed

theorem reset_scenario_witness:
  "mode demo_start = Drawing \<and> img_w demo_start = 100 \<and> img_h demo_start = 100
   \<and> img demo_start = Some \<lparr>source = \<lparr>rows = 100, cols = 100, pixels = []\<rparr>, overlay = []\<rparr>
   \<and> imread demo_world (img_path demo_start) = Some \<lparr>rows = 100, cols = 100, pixels = []\<rparr>
   \<and> label_path demo_start = ''/labelling/images.cv/data/train/labels/a.txt''
   \<and> files (run demo_world demo_start
               (click 10 10 30 30 @ click 40 40 90 80 @ [Key (ord CHR ''r'')]
                @ click 0 0 50 50 @ [Key (ord CHR ''s'')] @ [Key (ord CHR ''y'')]))
         ''/labelling/images.cv/data/train/labels/a.txt''
       = Some (''0 0.250000 0.250000 0.500000 0.500000'' @ [CHR 0x0A])"
proof -
  have d: "mode demo_start = Drawing" "img_w demo_start = 100" "img_h demo_start = 100"
    "img demo_start = Some \<lparr>source = \<lparr>rows = 100, cols = 100, pixels = []\<rparr>, overlay = []\<rparr>"
    "imread demo_world (img_path demo_start) = Some \<lparr>rows = 100, cols = 100, pixels = []\<rparr>"
    "label_path demo_start = ''/labelling/images.cv/data/train/labels/a.txt''"
    by (simp_all add: demo_start_def demo_world_def tool_defs)
  note t = reset_scenario [OF d(1) d(4) d(5) d(2) d(3), of 10 10 30 30 40 40 90 80]
  from t have f: "files (run demo_world demo_start
               (click 10 10 30 30 @ click 40 40 90 80 @ [Key (ord CHR ''r'')]
                @ click 0 0 50 50 @ [Key (ord CHR ''s'')] @ [Key (ord CHR ''y'')]))
         ''/labelling/images.cv/data/train/labels/a.txt''
       = Some (''0 0.250000 0.250000 0.500000 0.500000'' @ [CHR 0x0A])"
    by (simp only: d(6))
  from d f show ?thesis by blast
qed

subsection \<open>The image in memory\<close>

text \<open>
  From the start of the script on, whenever the tool waits in the drawing loop or in
  the preview, \<^verbatim>\<open>img\<close> holds an image: the branches of the model for an unbound
  or undecoded \<^verbatim>\<open>img\<close> in the callback and in the preview are never taken.
\<close>

lemma img_loaded_begin_image: "img_loaded (begin_image env f s)"
  by (simp add: img_loaded_def begin_image_def imshow_def Let_def split: option.splits)

lemma img_loaded_visit_splits: "img_loaded (visit_splits env sps s)"
proof (induction sps arbitrary: s)
  case Nil
  then show ?case by (simp add: img_loaded_def)
next
  case (Cons split rest)
  show ?case
    using Cons.IH img_loaded_begin_image
    by (auto simp add: Let_def img_loaded_def split: option.splits list.splits)
qed

lemma img_loaded_next_image: "img_loaded (next_image env s)"
  by (simp add: next_image_def img_loaded_begin_image img_loaded_visit_splits split: list.splits)

lemma img_loaded_launch: "img_loaded (launch env ds fs)"
  by (simp add: launch_def img_loaded_visit_splits)

lemma img_loaded_step: "img_loaded s \<Longrightarrow> img_loaded (step env s ev)"
proof (cases "mode s = Drawing \<or> mode s = Preview")
  case False
  then show ?thesis by (cases "mode s") (simp_all add: step_def img_loaded_def)
next
  case True
  assume "img_loaded s"
  with True obtain p where p: "img s = Some p" by (auto simp add: img_loaded_def)
  show ?thesis
  proof (cases ev)
    case (Mouse e x y)
    with True p show ?thesis
      by (auto simp add: step_def img_loaded_def draw_box_def imshow_def Let_def)
  next
    case (Key k)
    have n: "img_loaded (next_image env t)" for t by (rule img_loaded_next_image)
    from True show ?thesis
    proof
      assume "mode s = Drawing"
      with Key p n show ?thesis
        by (auto simp add: step_def drawing_key_def open_preview_def imshow_def Let_def
            img_loaded_def read_picture_def split: option.splits)
    next
      assume m: "mode s = Preview"
      show ?thesis
      proof (cases "mode (save_labels s)")
        case (Crashed e)
        with Key m p n show ?thesis
          by (auto simp add: step_def preview_key_def Let_def img_loaded_def)
      qed (use Key m p n in \<open>auto simp add: step_def preview_key_def Let_def img_loaded_def\<close>)
    qed
  qed
qed

lemma img_loaded_run: "img_loaded s \<Longrightarrow> img_loaded (run env s evs)"
  by (induction evs arbitrary: s) (simp_all add: img_loaded_step)

end
